theory Spec2Isabelle
  imports Main "HOL-Library.Word" "HOL-Library.List_Lexorder" "HOL-Library.Multiset"
begin

section \<open>The conversation ledger (sources/messaging.move)\<close>

text \<open>
  The Move module \<open>suitter::messaging\<close> keeps one shared \<open>ConversationRegistry\<close> and one
  shared \<open>Conversation\<close> object per pair of users. Every entry function is one
  transaction: an \<open>assert!\<close> that fails (or a failing \<open>table::add\<close>, \<open>table::borrow\<close>,
  \<open>vector::borrow_mut\<close>) aborts the transaction, and an aborted transaction changes
  nothing. The model returns \<open>Inl code\<close> for an abort and \<open>Inr\<close> of the updated objects
  otherwise.
\<close>

type_synonym address = "256 word"
type_synonym u64 = "64 word"
type_synonym u8 = "8 word"

text \<open>
  An object \<open>ID\<close>. \<open>object::new(ctx)\<close> derives a fresh address from the transaction
  digest and the number of ids created so far; the model keeps the count of ids ever
  created and hands it out as the next id.
\<close>

type_synonym ID = nat

definition object_new :: "nat \<Rightarrow> ID \<times> nat" where
  "object_new ids_so_far = (ids_so_far, Suc ids_so_far)"

text \<open>
  The abort codes: the four constants of the module and the aborts of the framework
  functions the module calls (\<open>table::add\<close> on a key that is present, \<open>table::borrow\<close> on
  one that is absent, \<open>vector::borrow_mut\<close> past the end).
\<close>

datatype abort_code =
    ENotParticipant
  | EMessageEmpty
  | ECannotMessageSelf
  | EInvalidBlobId
  | EFieldAlreadyExists
  | EFieldDoesNotExist
  | EIndexOutOfBounds

text \<open>The \<open>u64\<close> values the module gives its own constants.\<close>

fun abort_value :: "abort_code \<Rightarrow> nat option" where
  "abort_value ENotParticipant = Some 1"
| "abort_value EMessageEmpty = Some 3"
| "abort_value ECannotMessageSelf = Some 4"
| "abort_value EInvalidBlobId = Some 5"
| "abort_value _ = None"

record Message =
  sender :: address
  encrypted_content_blob_id :: string
  content_hash :: "u8 list"
  timestamp_ms :: u64
  is_read :: bool
  media_blob_id :: "string option"

record Conversation =
  conversation_uid :: ID
  participant1 :: address
  participant2 :: address
  messages :: "Message list"
  last_message_timestamp_ms :: u64

text \<open>\<open>sui::table::Table\<close>: an object with its own id holding a finite map.\<close>

record ('k, 'v) Table =
  table_uid :: ID
  contents :: "'k \<rightharpoonup> 'v"

definition table_new :: "ID \<Rightarrow> ('k, 'v) Table" where
  "table_new uid = \<lparr>table_uid = uid, contents = Map.empty\<rparr>"

definition table_contains :: "('k, 'v) Table \<Rightarrow> 'k \<Rightarrow> bool" where
  "table_contains t k = (case contents t k of None \<Rightarrow> False | Some v \<Rightarrow> True)"

definition table_borrow :: "('k, 'v) Table \<Rightarrow> 'k \<Rightarrow> abort_code + 'v" where
  "table_borrow t k = (case contents t k of None \<Rightarrow> Inl EFieldDoesNotExist | Some v \<Rightarrow> Inr v)"

definition table_add :: "('k, 'v) Table \<Rightarrow> 'k \<Rightarrow> 'v \<Rightarrow> abort_code + ('k, 'v) Table" where
  "table_add t k v =
     (if table_contains t k then Inl EFieldAlreadyExists
      else Inr (t\<lparr>contents := (contents t)(k \<mapsto> v)\<rparr>))"

text \<open>Writing back through the \<open>&mut\<close> reference that \<open>table::borrow_mut\<close> returned.\<close>

definition table_store :: "('k, 'v) Table \<Rightarrow> 'k \<Rightarrow> 'v \<Rightarrow> ('k, 'v) Table" where
  "table_store t k v = t\<lparr>contents := (contents t)(k \<mapsto> v)\<rparr>"

record ConversationRegistry =
  registry_uid :: ID
  conversations :: "(address, (address, ID) Table) Table"

text \<open>
  The events of \<open>suitter::suitter\<close> that the module emits through
  \<open>emit_conversation_created\<close> and \<open>emit_message_sent\<close>, with the arguments passed.
\<close>

datatype event =
    ConversationCreated ID address address u64
  | MessageSent ID address address u64

text \<open>
  What the transactions of this module read and write: the shared registry, the
  conversations shared so far (\<open>transfer::share_object\<close>), the events emitted and the
  number of object ids created.
\<close>

record ledger =
  conversation_registry :: ConversationRegistry
  shared_conversations :: "Conversation list"
  emitted :: "event list"
  ids_created :: nat

text \<open>\<open>init\<close>: the registry and its table are the first two objects.\<close>

definition init_ledger :: ledger where
  "init_ledger =
     (let (rid, n1) = object_new 0;
          (tid, n2) = object_new n1
      in \<lparr>conversation_registry = \<lparr>registry_uid = rid, conversations = table_new tid\<rparr>,
          shared_conversations = [],
          emitted = [],
          ids_created = n2\<rparr>)"

text \<open>
  \<open>conversation_exists\<close> and \<open>get_conversation_id_helper\<close>: each \<open>table::borrow\<close> stands
  under the \<open>table::contains\<close> that guards it, so the pair is one lookup.
\<close>

definition conversation_exists :: "ConversationRegistry \<Rightarrow> address \<Rightarrow> address \<Rightarrow> bool" where
  "conversation_exists registry user1 user2 =
     (if (case contents (conversations registry) user1 of
            None \<Rightarrow> False
          | Some user2_table \<Rightarrow> table_contains user2_table user2)
      then True
      else if (case contents (conversations registry) user2 of
            None \<Rightarrow> False
          | Some user1_table \<Rightarrow> table_contains user1_table user1)
      then True
      else False)"

definition get_conversation_id_helper ::
  "ConversationRegistry \<Rightarrow> address \<Rightarrow> address \<Rightarrow> ID option" where
  "get_conversation_id_helper registry user1 user2 =
     (case (case contents (conversations registry) user1 of
              None \<Rightarrow> None
            | Some user2_table \<Rightarrow> contents user2_table user2) of
        Some cid \<Rightarrow> Some cid
      | None \<Rightarrow>
          (case contents (conversations registry) user2 of
             None \<Rightarrow> None
           | Some user1_table \<Rightarrow> contents user1_table user1))"

definition get_conversation_id :: "ConversationRegistry \<Rightarrow> address \<Rightarrow> address \<Rightarrow> ID option" where
  "get_conversation_id registry user1 user2 = get_conversation_id_helper registry user1 user2"

text \<open>
  The block \<open>if (!table::contains(t, k)) { table::add(t, k, table::new(ctx)) }\<close> followed
  by \<open>table::add(table::borrow_mut(t, k), k2, v)\<close>, which \<open>start_conversation\<close> runs once for
  each direction.
\<close>

definition add_direction ::
  "(address, (address, ID) Table) Table \<Rightarrow> nat \<Rightarrow> address \<Rightarrow> address \<Rightarrow> ID \<Rightarrow>
   abort_code + ((address, (address, ID) Table) Table \<times> nat)" where
  "add_direction convs n k k2 v =
     (case (if table_contains convs k then Inr (convs, n)
            else (let (tid, n') = object_new n
                  in (case table_add convs k (table_new tid) of
                        Inl e \<Rightarrow> Inl e
                      | Inr convs' \<Rightarrow> Inr (convs', n')))) of
        Inl e \<Rightarrow> Inl e
      | Inr (convs1, n1) \<Rightarrow>
          (case table_borrow convs1 k of
             Inl e \<Rightarrow> Inl e
           | Inr inner \<Rightarrow>
               (case table_add inner k2 v of
                  Inl e \<Rightarrow> Inl e
                | Inr inner' \<Rightarrow> Inr (table_store convs1 k inner', n1))))"

definition start_conversation :: "ledger \<Rightarrow> address \<Rightarrow> u64 \<Rightarrow> address \<Rightarrow> abort_code + ledger" where
  "start_conversation l other_user clock tx_sender =
     (if tx_sender = other_user then Inl ECannotMessageSelf
      else if conversation_exists (conversation_registry l) tx_sender other_user then Inr l
      else
        (let (cid, n1) = object_new (ids_created l);
             conversation = \<lparr>conversation_uid = cid,
                             participant1 = tx_sender,
                             participant2 = other_user,
                             messages = [],
                             last_message_timestamp_ms = clock\<rparr>;
             registry = conversation_registry l
         in (case add_direction (conversations registry) n1 tx_sender other_user cid of
               Inl e \<Rightarrow> Inl e
             | Inr (convs1, n2) \<Rightarrow>
                 (case add_direction convs1 n2 other_user tx_sender cid of
                    Inl e \<Rightarrow> Inl e
                  | Inr (convs2, n3) \<Rightarrow>
                      Inr \<lparr>conversation_registry = registry\<lparr>conversations := convs2\<rparr>,
                           shared_conversations = shared_conversations l @ [conversation],
                           emitted = emitted l @ [ConversationCreated cid tx_sender other_user clock],
                           ids_created = n3\<rparr>))))"

text \<open>
  \<open>send_message\<close> and \<open>send_message_with_media\<close>. \<open>increment_messages\<close> belongs to
  \<open>suitter::suitter\<close>, which is not among the sources: it is the parameter \<open>incr\<close>, acting
  on a \<open>GlobalRegistry\<close> of any type. The result is the registry, the conversation and
  the event emitted.
\<close>

definition send_message ::
  "('g \<Rightarrow> 'g) \<Rightarrow> 'g \<Rightarrow> Conversation \<Rightarrow> string \<Rightarrow> u8 list \<Rightarrow> u64 \<Rightarrow> address \<Rightarrow>
   abort_code + ('g \<times> Conversation \<times> event)" where
  "send_message incr global_registry conversation blob_id hash clock tx_sender =
     (if \<not> (tx_sender = participant1 conversation \<or> tx_sender = participant2 conversation)
      then Inl ENotParticipant
      else if \<not> (length blob_id > 0) then Inl EInvalidBlobId
      else if \<not> (length hash > 0) then Inl EMessageEmpty
      else
        (let message = \<lparr>sender = tx_sender,
                        encrypted_content_blob_id = blob_id,
                        content_hash = hash,
                        timestamp_ms = clock,
                        is_read = False,
                        media_blob_id = None\<rparr>;
             conversation' = conversation\<lparr>messages := messages conversation @ [message],
                                          last_message_timestamp_ms := clock\<rparr>;
             receiver = (if tx_sender = participant1 conversation'
                         then participant2 conversation' else participant1 conversation')
         in Inr (incr global_registry, conversation',
                 MessageSent (conversation_uid conversation') tx_sender receiver clock)))"

definition send_message_with_media ::
  "('g \<Rightarrow> 'g) \<Rightarrow> 'g \<Rightarrow> Conversation \<Rightarrow> string \<Rightarrow> u8 list \<Rightarrow> string \<Rightarrow> u64 \<Rightarrow> address \<Rightarrow>
   abort_code + ('g \<times> Conversation \<times> event)" where
  "send_message_with_media incr global_registry conversation blob_id hash media clock tx_sender =
     (if \<not> (tx_sender = participant1 conversation \<or> tx_sender = participant2 conversation)
      then Inl ENotParticipant
      else if \<not> (length blob_id > 0) then Inl EInvalidBlobId
      else if \<not> (length media > 0) then Inl EInvalidBlobId
      else if \<not> (length hash > 0) then Inl EMessageEmpty
      else
        (let message = \<lparr>sender = tx_sender,
                        encrypted_content_blob_id = blob_id,
                        content_hash = hash,
                        timestamp_ms = clock,
                        is_read = False,
                        media_blob_id = Some media\<rparr>;
             conversation' = conversation\<lparr>messages := messages conversation @ [message],
                                          last_message_timestamp_ms := clock\<rparr>;
             receiver = (if tx_sender = participant1 conversation'
                         then participant2 conversation' else participant1 conversation')
         in Inr (incr global_registry, conversation',
                 MessageSent (conversation_uid conversation') tx_sender receiver clock)))"

text \<open>
  \<open>mark_messages_as_read_helper\<close>: the recursion over the index, with the abort of
  \<open>vector::borrow_mut\<close> on an index past the end. Indices are natural numbers: every
  \<open>+ 1\<close> of the source is on an index below a vector length, so the \<open>u64\<close> never overflows.
\<close>

function mark_messages_as_read_helper ::
  "Message list \<Rightarrow> address \<Rightarrow> nat \<Rightarrow> nat \<Rightarrow> abort_code + Message list" where
  "mark_messages_as_read_helper msgs reader index end_index =
     (if index \<ge> end_index then Inr msgs
      else if index \<ge> length msgs then Inl EIndexOutOfBounds
      else
        (let message = msgs ! index;
             msgs' = (if sender message \<noteq> reader
                      then msgs[index := message\<lparr>is_read := True\<rparr>] else msgs)
         in mark_messages_as_read_helper msgs' reader (index + 1) end_index))"
  by pat_completeness auto
termination
  by (relation "measure (\<lambda>(msgs, reader, index, end_index). end_index - index)") auto

definition mark_messages_as_read ::
  "Conversation \<Rightarrow> u64 \<Rightarrow> address \<Rightarrow> abort_code + Conversation" where
  "mark_messages_as_read conversation up_to_index reader =
     (if \<not> (reader = participant1 conversation \<or> reader = participant2 conversation)
      then Inl ENotParticipant
      else
        (let messages_length = length (messages conversation);
             end_index = (if unat up_to_index \<ge> messages_length then messages_length
                          else unat up_to_index + 1)
         in (case mark_messages_as_read_helper (messages conversation) reader 0 end_index of
               Inl e \<Rightarrow> Inl e
             | Inr msgs' \<Rightarrow> Inr (conversation\<lparr>messages := msgs'\<rparr>))))"

definition is_participant :: "Conversation \<Rightarrow> address \<Rightarrow> bool" where
  "is_participant conversation user =
     (participant1 conversation = user \<or> participant2 conversation = user)"


subsection \<open>Notions the statements about the ledger use\<close>

text \<open>
  The ledgers that exist: the one \<open>init\<close> leaves, and any that a successful
  \<open>start_conversation\<close> transaction leaves. No other function of the module takes the
  registry by \<open>&mut\<close>.
\<close>

inductive reachable :: "ledger \<Rightarrow> bool" where
  reachable_init: "reachable init_ledger"
| reachable_start:
    "reachable l \<Longrightarrow> start_conversation l other_user clock tx_sender = Inr l' \<Longrightarrow> reachable l'"

text \<open>A conversation is between \<open>a\<close> and \<open>b\<close>, in either order.\<close>

definition between :: "Conversation \<Rightarrow> address \<Rightarrow> address \<Rightarrow> bool" where
  "between c a b =
     ((participant1 c = a \<and> participant2 c = b) \<or> (participant1 c = b \<and> participant2 c = a))"

text \<open>The id the registry holds for the direction \<open>x\<close> to \<open>y\<close>.\<close>

definition entry_of ::
  "(address, (address, ID) Table) Table \<Rightarrow> address \<Rightarrow> address \<Rightarrow> ID option" where
  "entry_of convs x y = (case contents convs x of None \<Rightarrow> None | Some t \<Rightarrow> contents t y)"

definition registry_inv :: "ledger \<Rightarrow> bool" where
  "registry_inv l =
     ((\<forall>x y cid. (entry_of (conversations (conversation_registry l)) x y = Some cid) =
         (\<exists>c \<in> set (shared_conversations l). conversation_uid c = cid \<and> between c x y)) \<and>
      (\<forall>x y. length (filter (\<lambda>c. between c x y) (shared_conversations l)) \<le> 1))"

text \<open>
  A run of \<open>send_message\<close> transactions on one conversation, each request giving the
  transaction's sender, the blob id, the content hash and the clock's time. The run
  stops at the first abort.
\<close>

type_synonym send_request = "address \<times> string \<times> u8 list \<times> u64"

fun send_messages ::
  "('g \<Rightarrow> 'g) \<Rightarrow> 'g \<Rightarrow> Conversation \<Rightarrow> send_request list \<Rightarrow>
   abort_code + ('g \<times> Conversation \<times> event list)" where
  "send_messages incr g c [] = Inr (g, c, [])"
| "send_messages incr g c ((s, b, h, t) # rs) =
     (case send_message incr g c b h t s of
        Inl e \<Rightarrow> Inl e
      | Inr (g', c', ev) \<Rightarrow>
          (case send_messages incr g' c' rs of
             Inl e \<Rightarrow> Inl e
           | Inr (g'', c'', evs) \<Rightarrow> Inr (g'', c'', ev # evs)))"

text \<open>The \<open>Message\<close> that \<open>send_message\<close> builds for a request.\<close>

fun sent_message :: "send_request \<Rightarrow> Message" where
  "sent_message (s, b, h, t) =
     \<lparr>sender = s, encrypted_content_blob_id = b, content_hash = h, timestamp_ms = t,
      is_read = False, media_blob_id = None\<rparr>"

text \<open>What the read-marking recursion does to the message at index \<open>j\<close>.\<close>

definition mark_one :: "address \<Rightarrow> nat \<Rightarrow> nat \<Rightarrow> nat \<Rightarrow> Message \<Rightarrow> Message" where
  "mark_one reader lo hi j m =
     (if lo \<le> j \<and> j < hi \<and> sender m \<noteq> reader then m\<lparr>is_read := True\<rparr> else m)"

text \<open>
  The example of the specification: \<open>A = 0xaa\<close> and \<open>B = 0xbb\<close>, here with four messages,
  \<open>A\<close> having sent those at indices 0 and 2 and \<open>B\<close> those at 1 and 3.
\<close>

definition demo_conversation :: Conversation where
  "demo_conversation =
     \<lparr>conversation_uid = 7, participant1 = 0xaa, participant2 = 0xbb,
      messages = [], last_message_timestamp_ms = 1000\<rparr>"

definition demo_thread :: Conversation where
  "demo_thread =
     demo_conversation\<lparr>messages :=
       [sent_message (0xaa, ''blob0'', [1], 1001),
        sent_message (0xbb, ''blob1'', [2], 1002),
        sent_message (0xaa, ''blob2'', [3], 1003),
        sent_message (0xbb, ''blob3'', [4], 1004)],
       last_message_timestamp_ms := 1004\<rparr>"

section \<open>The encryption pipeline (utils/messageEncryption.ts)\<close>

text \<open>
  The TypeScript module turns a message into a Walrus blob and back. It calls four
  things that are not its own: the text codecs and \<open>crypto.subtle.digest\<close> of the web
  platform, the Seal client (threshold encryption) and the Walrus service with \<open>fetch\<close>
  (the blob store). The codecs are fixed algorithms and are written out below; the
  digest, the Seal client and the blob store are parameters of every function here.
  A promise that rejects and a \<open>throw\<close> are the value \<open>Inl\<close>; \<open>console.error\<close> is not
  modelled.
\<close>

subsection \<open>Strings and the text codecs\<close>

text \<open>A JavaScript string is a sequence of UTF-16 code units.\<close>

type_synonym js_string = "16 word list"

definition js :: "string \<Rightarrow> js_string" where
  "js s = map (\<lambda>c. of_nat (of_char c)) s"

definition is_lead :: "nat \<Rightarrow> bool" where
  "is_lead c = (0xD800 \<le> c \<and> c \<le> 0xDBFF)"

definition is_trail :: "nat \<Rightarrow> bool" where
  "is_trail c = (0xDC00 \<le> c \<and> c \<le> 0xDFFF)"

text \<open>
  \<open>TextEncoder.encode\<close> first converts the string to scalar values: a lead surrogate
  followed by a trail surrogate is one code point above \<open>0xFFFF\<close>, and a surrogate that
  stands alone becomes \<open>U+FFFD\<close>.
\<close>

fun scalar_values :: "nat list \<Rightarrow> nat list" where
  "scalar_values [] = []"
| "scalar_values [c] = (if is_lead c \<or> is_trail c then [0xFFFD] else [c])"
| "scalar_values (c # d # cs) =
     (if is_lead c \<and> is_trail d
      then (0x10000 + (c - 0xD800) * 0x400 + (d - 0xDC00)) # scalar_values cs
      else if is_lead c \<or> is_trail c then 0xFFFD # scalar_values (d # cs)
      else c # scalar_values (d # cs))"

text \<open>The UTF-8 bytes of one scalar value.\<close>

definition utf8_bytes :: "nat \<Rightarrow> nat list" where
  "utf8_bytes cp =
     (if cp < 0x80 then [cp]
      else if cp < 0x800 then [0xC0 + cp div 64, 0x80 + cp mod 64]
      else if cp < 0x10000 then [0xE0 + cp div 4096, 0x80 + cp div 64 mod 64, 0x80 + cp mod 64]
      else [0xF0 + cp div 262144, 0x80 + cp div 4096 mod 64, 0x80 + cp div 64 mod 64,
            0x80 + cp mod 64])"

definition TextEncoder_encode :: "js_string \<Rightarrow> u8 list" where
  "TextEncoder_encode s = map of_nat (concat (map utf8_bytes (scalar_values (map unat s))))"

text \<open>
  The UTF-8 decoder of \<open>TextDecoder\<close> (not fatal): the state is the code point being
  assembled, the continuation bytes needed and seen, and the range allowed for the next
  continuation byte. A byte that cannot continue the sequence ends it with \<open>U+FFFD\<close> and
  is read again as the start of the next one; input that ends inside a sequence ends
  with \<open>U+FFFD\<close>. The masks \<open>byte & 0x1F\<close>, \<open>& 0xF\<close>, \<open>& 7\<close> and \<open>& 0x3F\<close> are the remainders.
\<close>

function utf8_decode :: "nat list \<Rightarrow> nat \<Rightarrow> nat \<Rightarrow> nat \<Rightarrow> nat \<Rightarrow> nat \<Rightarrow> nat list" where
  "utf8_decode [] cp needed seen lower upper = (if needed \<noteq> 0 then [0xFFFD] else [])"
| "utf8_decode (b # bs) cp needed seen lower upper =
     (if needed = 0 then
        (if b \<le> 0x7F then b # utf8_decode bs 0 0 0 0x80 0xBF
         else if 0xC2 \<le> b \<and> b \<le> 0xDF then utf8_decode bs (b mod 32) 1 0 0x80 0xBF
         else if 0xE0 \<le> b \<and> b \<le> 0xEF then
           utf8_decode bs (b mod 16) 2 0
             (if b = 0xE0 then 0xA0 else 0x80) (if b = 0xED then 0x9F else 0xBF)
         else if 0xF0 \<le> b \<and> b \<le> 0xF4 then
           utf8_decode bs (b mod 8) 3 0
             (if b = 0xF0 then 0x90 else 0x80) (if b = 0xF4 then 0x8F else 0xBF)
         else 0xFFFD # utf8_decode bs 0 0 0 0x80 0xBF)
      else if \<not> (lower \<le> b \<and> b \<le> upper) then 0xFFFD # utf8_decode (b # bs) 0 0 0 0x80 0xBF
      else if seen + 1 \<noteq> needed then utf8_decode bs (cp * 64 + b mod 64) needed (seen + 1) 0x80 0xBF
      else (cp * 64 + b mod 64) # utf8_decode bs 0 0 0 0x80 0xBF)"
  by pat_completeness auto
termination
  by (relation "measure (\<lambda>(bs, cp, needed, seen, lower, upper).
        2 * length bs + (if needed = 0 then 0 else 1))") auto

text \<open>
  \<open>new TextDecoder()\<close> has \<open>ignoreBOM = false\<close>: a byte order mark \<open>U+FEFF\<close> at the start of
  the output is dropped.
\<close>

definition strip_bom :: "nat list \<Rightarrow> nat list" where
  "strip_bom cps = (case cps of [] \<Rightarrow> [] | c # cs \<Rightarrow> if c = 0xFEFF then cs else c # cs)"

definition utf16_units :: "nat \<Rightarrow> nat list" where
  "utf16_units cp =
     (if cp < 0x10000 then [cp]
      else [0xD800 + (cp - 0x10000) div 0x400, 0xDC00 + (cp - 0x10000) mod 0x400])"

definition TextDecoder_decode :: "u8 list \<Rightarrow> js_string" where
  "TextDecoder_decode bytes =
     map of_nat (concat (map utf16_units
       (strip_bom (utf8_decode (map unat bytes) 0 0 0 0x80 0xBF))))"

subsection \<open>What the module is given\<close>

text \<open>A value thrown: an \<open>Error\<close> with its message, or anything else.\<close>

datatype js_exn = JsError js_string | JsThrown

text \<open>\<open>error instanceof Error ? error.message : 'Unknown error'\<close>\<close>

definition message_of :: "js_exn \<Rightarrow> js_string" where
  "message_of e = (case e of JsError m \<Rightarrow> m | JsThrown \<Rightarrow> js ''Unknown error'')"

text \<open>The object \<open>createSessionKey\<close> builds, by the values its two methods return.\<close>

record session_key =
  getPackageId :: js_string
  getIdentity :: js_string

text \<open>
  \<open>SealClient\<close>: \<open>encrypt({threshold, packageId, id, data})\<close> resolves to
  \<open>{encryptedObject, key}\<close>, and \<open>decrypt({data, sessionKey, txBytes})\<close> to the plaintext.
\<close>

record SealClient =
  seal_encrypt :: "nat \<Rightarrow> js_string \<Rightarrow> js_string \<Rightarrow> u8 list \<Rightarrow> js_exn + (u8 list \<times> u8 list)"
  seal_decrypt :: "u8 list \<Rightarrow> session_key \<Rightarrow> u8 list \<Rightarrow> js_exn + u8 list"

record js_file =
  file_bits :: "u8 list"
  file_name :: js_string
  file_type :: js_string

record response =
  ok :: bool
  statusText :: js_string
  body :: "u8 list"

text \<open>
  The platform and the imports: \<open>WalrusService.uploadFile\<close> (resolving to the blob id, and
  changing the state \<open>'w\<close> of the blob store), \<open>WalrusService.getBlobUrl\<close>, \<open>fetch\<close>,
  \<open>crypto.subtle.digest('SHA-256', _)\<close> and the constant \<open>PACKAGE_ID\<close>.
\<close>

record 'w platform =
  uploadFile :: "'w \<Rightarrow> js_file \<Rightarrow> js_exn + (js_string \<times> 'w)"
  getBlobUrl :: "js_string \<Rightarrow> js_string"
  fetch :: "'w \<Rightarrow> js_string \<Rightarrow> js_exn + response"
  subtle_digest :: "u8 list \<Rightarrow> js_exn + u8 list"
  PACKAGE_ID :: js_string

subsection \<open>The functions of the module\<close>

text \<open>\<open>Array.prototype.join\<close>\<close>

fun join_js :: "js_string \<Rightarrow> js_string list \<Rightarrow> js_string" where
  "join_js sep [] = []"
| "join_js sep [x] = x"
| "join_js sep (x # y # ys) = x @ sep @ join_js sep (y # ys)"

text \<open>\<open>b.toString(16).padStart(2, '0')\<close>\<close>

definition hex_digit :: "nat \<Rightarrow> 16 word" where
  "hex_digit n = (if n < 10 then of_nat (48 + n) else of_nat (87 + n))"

definition to_hex2 :: "u8 \<Rightarrow> js_string" where
  "to_hex2 b = [hex_digit (unat b div 16), hex_digit (unat b mod 16)]"

text \<open>
  \<open>createConversationIdentity\<close>. \<open>participants.sort()\<close> with no comparator orders strings
  by their code units, which is the lexicographic order on \<open>16 word list\<close>; it also
  leaves the caller's array sorted, which no function here reads again.
\<close>

definition createConversationIdentity :: "js_string \<Rightarrow> js_string list \<Rightarrow> js_string" where
  "createConversationIdentity conversationId participants =
     (let sortedParticipants = sort participants;
          identityData = conversationId @ js ''-'' @ join_js (js ''-'') sortedParticipants;
          bytes = TextEncoder_encode identityData
      in concat (map to_hex2 bytes))"

definition createSessionKey :: "'w platform \<Rightarrow> js_string \<Rightarrow> SealClient \<Rightarrow> session_key" where
  "createSessionKey env identity sealClient =
     \<lparr>getPackageId = PACKAGE_ID env, getIdentity = identity\<rparr>"

text \<open>
  \<open>createDecryptTransaction\<close>: 64 bytes, the bytes of \<open>decrypt-<identity>\<close> repeated;
  \<open>txData[i % txData.length] || 0\<close> is \<open>0\<close> where the index is not a number.
\<close>

definition createDecryptTransaction :: "js_string \<Rightarrow> u8 list" where
  "createDecryptTransaction identity =
     (let txData = TextEncoder_encode (js ''decrypt-'' @ identity)
      in map (\<lambda>i. if txData = [] then 0 else txData ! (i mod length txData)) [0..<64])"


definition decryptMessage ::
  "'w platform \<Rightarrow> 'w \<Rightarrow> js_string \<Rightarrow> SealClient \<Rightarrow> js_string \<Rightarrow> js_string list \<Rightarrow>
   session_key option \<Rightarrow> u8 list option \<Rightarrow> js_exn + js_string" where
  "decryptMessage env w blobId sealClient conversationId participants sessionKey txBytes =
     (case
        (case fetch env w (getBlobUrl env blobId) of
           Inl e \<Rightarrow> Inl e
         | Inr response \<Rightarrow>
             if \<not> ok response
             then Inl (JsError (js ''Failed to download encrypted message from Walrus: ''
                                @ statusText response))
             else
               (let encryptedBytes = body response;
                    identity = createConversationIdentity conversationId participants;
                    finalSessionKey = (case sessionKey of
                                         None \<Rightarrow> createSessionKey env identity sealClient
                                       | Some k \<Rightarrow> k);
                    finalTxBytes = (case txBytes of
                                      None \<Rightarrow> createDecryptTransaction identity
                                    | Some t \<Rightarrow> t)
                in (case seal_decrypt sealClient encryptedBytes finalSessionKey finalTxBytes of
                      Inl e \<Rightarrow> Inl e
                    | Inr decryptedData \<Rightarrow> Inr (TextDecoder_decode decryptedData))))
      of
        Inl error \<Rightarrow> Inl (JsError (js ''Failed to decrypt message: '' @ message_of error))
      | Inr messageContent \<Rightarrow> Inr messageContent)"

text \<open>The comparison loop of \<open>verifyMessageHash\<close>, from index \<open>i\<close>.\<close>

function compare_hashes :: "u8 list \<Rightarrow> u8 list \<Rightarrow> nat \<Rightarrow> bool" where
  "compare_hashes actualHash expectedHash i =
     (if i < length actualHash
      then (if actualHash ! i \<noteq> expectedHash ! i then False
            else compare_hashes actualHash expectedHash (i + 1))
      else True)"
  by pat_completeness auto
termination
  by (relation "measure (\<lambda>(actualHash, expectedHash, i). length actualHash - i)") auto

definition verifyMessageHash :: "'w platform \<Rightarrow> js_string \<Rightarrow> u8 list \<Rightarrow> bool" where
  "verifyMessageHash env messageContent expectedHash =
     (case subtle_digest env (TextEncoder_encode messageContent) of
        Inl error \<Rightarrow> False
      | Inr actualHash \<Rightarrow>
          if length actualHash \<noteq> length expectedHash then False
          else compare_hashes actualHash expectedHash 0)"

subsection \<open>Notions the statements about the pipeline use\<close>






text \<open>
  Collaborators for the examples. The digest is a stand-in of 32 bytes for SHA-256
  (each byte the sum of the input), the cipher reverses the bytes, and the blob store
  is a list of urls with their bytes, a blob's id being its bytes in hexadecimal.
\<close>

definition demo_digest :: "u8 list \<Rightarrow> u8 list" where
  "demo_digest bytes = replicate 32 (sum_list bytes)"

definition demo_seal :: SealClient where
  "demo_seal =
     \<lparr>seal_encrypt = (\<lambda>threshold packageId identity data. Inr (rev data, [])),
      seal_decrypt = (\<lambda>data sessionKey txBytes. Inr (rev data))\<rparr>"

definition demo_url :: "js_string \<Rightarrow> js_string" where
  "demo_url blobId = js ''https://aggregator.example/v1/blobs/'' @ blobId"

definition demo_platform :: "(js_string \<times> u8 list) list platform" where
  "demo_platform =
     \<lparr>uploadFile = (\<lambda>w file.
        (let blobId = concat (map to_hex2 (file_bits file))
         in Inr (blobId, (demo_url blobId, file_bits file) # w))),
      getBlobUrl = demo_url,
      fetch = (\<lambda>w url.
        (case map_of w url of
           None \<Rightarrow> Inr \<lparr>ok = False, statusText = js ''Not Found'', body = []\<rparr>
         | Some bits \<Rightarrow> Inr \<lparr>ok = True, statusText = js ''OK'', body = bits\<rparr>)),
      subtle_digest = (\<lambda>bytes. Inr (demo_digest bytes)),
      PACKAGE_ID = js ''0x2039''\<rparr>"

text \<open>A store holding one blob, \<open>b1\<close>: the encryption of the message \<open>hi\<close>.\<close>

definition demo_store :: "(js_string \<times> u8 list) list" where
  "demo_store = [(demo_url (js ''b1''), rev (TextEncoder_encode (js ''hi'')))]"

section \<open>Properties of the ledger\<close>

subsection \<open>The registry\<close>

lemma conversation_exists_entry:
  "conversation_exists r a b =
     (entry_of (conversations r) a b \<noteq> None \<or> entry_of (conversations r) b a \<noteq> None)"
  by (auto simp: conversation_exists_def entry_of_def table_contains_def split: option.splits)

lemma get_conversation_id_entry:
  "get_conversation_id r a b =
     (case entry_of (conversations r) a b of Some c \<Rightarrow> Some c
      | None \<Rightarrow> entry_of (conversations r) b a)"
  by (auto simp: get_conversation_id_def get_conversation_id_helper_def entry_of_def
      split: option.splits)

lemma add_direction_entry:
  assumes "entry_of convs a b = None"
  shows "\<exists>convs' n'. add_direction convs n a b cid = Inr (convs', n') \<and>
           table_uid convs' = table_uid convs \<and>
           (\<forall>x y. entry_of convs' x y = (if x = a \<and> y = b then Some cid else entry_of convs x y))"
proof (cases "contents convs a")
  case None
  then show ?thesis
    by (auto simp: add_direction_def table_contains_def table_add_def table_new_def
        table_borrow_def table_store_def object_new_def entry_of_def)
next
  case (Some t)
  then show ?thesis using assms
    by (auto simp: add_direction_def table_contains_def table_add_def table_new_def
        table_borrow_def table_store_def object_new_def entry_of_def)
qed

lemma start_conversation_existing:
  "a \<noteq> b \<Longrightarrow> conversation_exists (conversation_registry l) a b \<Longrightarrow>
   start_conversation l b clock a = Inr l"
  by (simp add: start_conversation_def)

lemma start_conversation_new:
  assumes "a \<noteq> b" and "\<not> conversation_exists (conversation_registry l) a b"
  shows "\<exists>l'. start_conversation l b clock a = Inr l' \<and>
     shared_conversations l' = shared_conversations l @
        [\<lparr>conversation_uid = ids_created l, participant1 = a, participant2 = b,
          messages = [], last_message_timestamp_ms = clock\<rparr>] \<and>
     emitted l' = emitted l @ [ConversationCreated (ids_created l) a b clock] \<and>
     (\<forall>x y. entry_of (conversations (conversation_registry l')) x y =
        (if (x = a \<and> y = b) \<or> (x = b \<and> y = a) then Some (ids_created l)
         else entry_of (conversations (conversation_registry l)) x y))"
proof -
  let ?convs = "conversations (conversation_registry l)"
  let ?cid = "ids_created l"
  from assms(2) have none: "entry_of ?convs a b = None" "entry_of ?convs b a = None"
    by (simp_all add: conversation_exists_entry)
  from add_direction_entry[OF none(1), of "Suc ?cid" ?cid]
  obtain convs1 n1 where 1: "add_direction ?convs (Suc ?cid) a b ?cid = Inr (convs1, n1)"
    "\<forall>x y. entry_of convs1 x y = (if x = a \<and> y = b then Some ?cid else entry_of ?convs x y)"
    by blast
  have "entry_of convs1 b a = None" using 1(2) none(2) assms(1) by simp
  from add_direction_entry[OF this, of n1 ?cid]
  obtain convs2 n2 where 2: "add_direction convs1 n1 b a ?cid = Inr (convs2, n2)"
    "\<forall>x y. entry_of convs2 x y = (if x = b \<and> y = a then Some ?cid else entry_of convs1 x y)"
    by blast
  show ?thesis
    using assms 1 2 by (auto simp: start_conversation_def object_new_def)
qed

lemma registry_inv_init: "registry_inv init_ledger"
  by (simp add: registry_inv_def init_ledger_def object_new_def table_new_def entry_of_def)

lemma between_sym: "between c x y = between c y x"
  by (auto simp: between_def)

lemma registry_inv_step:
  assumes inv: "registry_inv l" and step: "start_conversation l b clock a = Inr l'"
  shows "registry_inv l'"
proof (cases "a = b")
  case True
  then show ?thesis using step by (simp add: start_conversation_def)
next
  case ne: False
  show ?thesis
  proof (cases "conversation_exists (conversation_registry l) a b")
    case True
    then show ?thesis using start_conversation_existing[OF ne True, of clock] step inv by simp
  next
    case False
    let ?new = "\<lparr>conversation_uid = ids_created l, participant1 = a, participant2 = b,
          messages = [], last_message_timestamp_ms = clock\<rparr>"
    let ?E = "entry_of (conversations (conversation_registry l))"
    let ?E' = "entry_of (conversations (conversation_registry l'))"
    from start_conversation_new[OF ne False, of clock] step
    have sh: "shared_conversations l' = shared_conversations l @ [?new]"
      and en: "\<And>x y. ?E' x y =
        (if (x = a \<and> y = b) \<or> (x = b \<and> y = a) then Some (ids_created l) else ?E x y)"
      by auto
    from False have none: "?E a b = None" "?E b a = None"
      by (simp_all add: conversation_exists_entry)
    have old: "(?E x y = Some cid) =
         (\<exists>c \<in> set (shared_conversations l). conversation_uid c = cid \<and> between c x y)"
      for x y cid
      using inv by (simp add: registry_inv_def)
    have no_old: "\<not> between c a b" if "c \<in> set (shared_conversations l)" for c
      using old[of a b "conversation_uid c"] none(1) that by auto
    have new_between: "between ?new x y = ((x = a \<and> y = b) \<or> (x = b \<and> y = a))" for x y
      by (auto simp: between_def)
    have old_between: "between c x y \<Longrightarrow> \<not> ((x = a \<and> y = b) \<or> (x = b \<and> y = a))"
      if "c \<in> set (shared_conversations l)" for c x y
      using no_old[OF that] between_sym[of c a b] by auto
    have 1: "(?E' x y = Some cid) =
         (\<exists>c \<in> set (shared_conversations l'). conversation_uid c = cid \<and> between c x y)"
      for x y cid
    proof (cases "(x = a \<and> y = b) \<or> (x = b \<and> y = a)")
      case True
      have "\<not> (\<exists>c \<in> set (shared_conversations l). conversation_uid c = cid \<and> between c x y)"
        using old_between True by blast
      then show ?thesis using True en[of x y] new_between[of x y] by (auto simp: sh)
    next
      case False
      then show ?thesis using en[of x y] new_between[of x y] old[of x y cid] by (auto simp: sh)
    qed
    have 2: "length (filter (\<lambda>c. between c x y) (shared_conversations l')) \<le> 1" for x y
    proof (cases "(x = a \<and> y = b) \<or> (x = b \<and> y = a)")
      case True
      have "filter (\<lambda>c. between c x y) (shared_conversations l) = []"
        using old_between True by (auto simp: filter_empty_conv)
      then show ?thesis by (simp add: sh)
    next
      case False
      then have "\<not> between ?new x y" using new_between[of x y] by blast
      moreover have "length (filter (\<lambda>c. between c x y) (shared_conversations l)) \<le> 1"
        using inv by (simp add: registry_inv_def)
      ultimately show ?thesis by (simp add: sh)
    qed
    show ?thesis unfolding registry_inv_def using 1 2 by blast
  qed
qed

lemma reachable_inv: "reachable l \<Longrightarrow> registry_inv l"
  by (induction rule: reachable.induct) (auto intro: registry_inv_init registry_inv_step)

text \<open>
  Claim C2. Let the ledger be one that \<open>init\<close> and \<open>start_conversation\<close> transactions
  produced, and \<open>a \<noteq> b\<close>. Then \<open>start_conversation\<close> sent by \<open>a\<close> for \<open>b\<close> succeeds; after it,
  \<open>start_conversation\<close> sent by \<open>b\<close> for \<open>a\<close>, and again by \<open>a\<close> for \<open>b\<close>, succeed and leave
  the ledger exactly as it was (no conversation shared, no event, no id used);
  \<open>get_conversation_id\<close> returns one and the same id for \<open>(a, b)\<close> and \<open>(b, a)\<close>; and exactly
  one shared conversation is between \<open>a\<close> and \<open>b\<close>, the one with that id (before the call
  there was at most one). The first call
  itself changes nothing when the pair already had a conversation, and otherwise shares
  exactly one new conversation and emits one \<open>ConversationCreated\<close> event. The entry
  function returns no value: the id is read with \<open>get_conversation_id\<close>, and "created" is
  the new shared object with its event.
\<close>

theorem start_conversation_find_or_create:
  assumes "reachable l" and "a \<noteq> b"
  shows "length (filter (\<lambda>c. between c a b) (shared_conversations l)) \<le> 1 \<and>
    (\<exists>l1 cid.
      start_conversation l b t1 a = Inr l1 \<and>
      start_conversation l1 a t2 b = Inr l1 \<and>
      start_conversation l1 b t3 a = Inr l1 \<and>
      get_conversation_id (conversation_registry l1) a b = Some cid \<and>
      get_conversation_id (conversation_registry l1) b a = Some cid \<and>
      map conversation_uid (filter (\<lambda>c. between c a b) (shared_conversations l1)) = [cid] \<and>
      (if conversation_exists (conversation_registry l) a b then l1 = l
       else shared_conversations l1 = shared_conversations l @
              [\<lparr>conversation_uid = cid, participant1 = a, participant2 = b,
                messages = [], last_message_timestamp_ms = t1\<rparr>] \<and>
            emitted l1 = emitted l @ [ConversationCreated cid a b t1]))"
proof -
  have before: "length (filter (\<lambda>c. between c a b) (shared_conversations l)) \<le> 1"
    using reachable_inv[OF assms(1)] by (simp add: registry_inv_def)
  obtain l1 where l1: "start_conversation l b t1 a = Inr l1"
    and shape: "(if conversation_exists (conversation_registry l) a b then l1 = l
       else shared_conversations l1 = shared_conversations l @
              [\<lparr>conversation_uid = ids_created l, participant1 = a, participant2 = b,
                messages = [], last_message_timestamp_ms = t1\<rparr>] \<and>
            emitted l1 = emitted l @ [ConversationCreated (ids_created l) a b t1])"
    and ex1: "entry_of (conversations (conversation_registry l1)) a b \<noteq> None"
    and fresh: "\<not> conversation_exists (conversation_registry l) a b \<Longrightarrow>
            entry_of (conversations (conversation_registry l1)) a b = Some (ids_created l)"
  proof (cases "conversation_exists (conversation_registry l) a b")
    case True
    have inv: "registry_inv l" using assms(1) by (rule reachable_inv)
    from True obtain cid where
      "entry_of (conversations (conversation_registry l)) a b = Some cid
        \<or> entry_of (conversations (conversation_registry l)) b a = Some cid"
      by (auto simp: conversation_exists_entry)
    then have "entry_of (conversations (conversation_registry l)) a b = Some cid"
      using inv between_sym[of _ a b] by (auto simp: registry_inv_def)
    then show ?thesis
      using that[of l] start_conversation_existing[OF assms(2) True, of t1] True by simp
  next
    case False
    from start_conversation_new[OF assms(2) False, of t1] obtain l' where
      "start_conversation l b t1 a = Inr l'"
      "shared_conversations l' = shared_conversations l @
        [\<lparr>conversation_uid = ids_created l, participant1 = a, participant2 = b,
          messages = [], last_message_timestamp_ms = t1\<rparr>]"
      "emitted l' = emitted l @ [ConversationCreated (ids_created l) a b t1]"
      "\<forall>x y. entry_of (conversations (conversation_registry l')) x y =
        (if (x = a \<and> y = b) \<or> (x = b \<and> y = a) then Some (ids_created l)
         else entry_of (conversations (conversation_registry l)) x y)"
      by blast
    then show ?thesis using that[of l'] False by simp
  qed
  have r1: "reachable l1" using assms(1) l1 by (rule reachable_start)
  then have inv1: "registry_inv l1" by (rule reachable_inv)
  from ex1 obtain cid where
    cid: "entry_of (conversations (conversation_registry l1)) a b = Some cid"
    by auto
  then have cid': "entry_of (conversations (conversation_registry l1)) b a = Some cid"
    using inv1 between_sym[of _ a b] by (auto simp: registry_inv_def)
  have exists1: "conversation_exists (conversation_registry l1) a b"
    "conversation_exists (conversation_registry l1) b a"
    using cid by (simp_all add: conversation_exists_entry)
  have again: "start_conversation l1 a t2 b = Inr l1" "start_conversation l1 b t3 a = Inr l1"
    using start_conversation_existing[OF assms(2) exists1(1)]
      start_conversation_existing[OF assms(2)[symmetric] exists1(2)] by simp_all
  have ids: "get_conversation_id (conversation_registry l1) a b = Some cid"
    "get_conversation_id (conversation_registry l1) b a = Some cid"
    using cid cid' by (simp_all add: get_conversation_id_entry)
  have one: "map conversation_uid (filter (\<lambda>c. between c a b) (shared_conversations l1)) = [cid]"
  proof -
    from cid inv1 obtain c where c: "c \<in> set (shared_conversations l1)"
      "conversation_uid c = cid" "between c a b"
      by (auto simp: registry_inv_def)
    then have "c \<in> set (filter (\<lambda>c. between c a b) (shared_conversations l1))" by simp
    moreover have "length (filter (\<lambda>c. between c a b) (shared_conversations l1)) \<le> 1"
      using inv1 by (simp add: registry_inv_def)
    ultimately have "filter (\<lambda>c. between c a b) (shared_conversations l1) = [c]"
      by (cases "filter (\<lambda>c. between c a b) (shared_conversations l1)") auto
    then show ?thesis using c(2) by simp
  qed
  have cid_fresh: "\<not> conversation_exists (conversation_registry l) a b \<Longrightarrow> cid = ids_created l"
    using fresh cid by simp
  have "\<exists>l1 cid.
      start_conversation l b t1 a = Inr l1 \<and>
      start_conversation l1 a t2 b = Inr l1 \<and>
      start_conversation l1 b t3 a = Inr l1 \<and>
      get_conversation_id (conversation_registry l1) a b = Some cid \<and>
      get_conversation_id (conversation_registry l1) b a = Some cid \<and>
      map conversation_uid (filter (\<lambda>c. between c a b) (shared_conversations l1)) = [cid] \<and>
      (if conversation_exists (conversation_registry l) a b then l1 = l
       else shared_conversations l1 = shared_conversations l @
              [\<lparr>conversation_uid = cid, participant1 = a, participant2 = b,
                messages = [], last_message_timestamp_ms = t1\<rparr>] \<and>
            emitted l1 = emitted l @ [ConversationCreated cid a b t1])"
    using l1 again ids one shape cid_fresh
    by (intro exI[of _ l1] exI[of _ cid]) (auto split: if_splits)
  then show ?thesis using before by blast
qed

theorem start_conversation_find_or_create_witness:
  "reachable init_ledger \<and> (0xaa :: address) \<noteq> 0xbb \<and>
   length (filter (\<lambda>c. between c 0xaa 0xbb) (shared_conversations init_ledger)) \<le> 1 \<and>
   (\<exists>l1 cid.
      start_conversation init_ledger 0xbb 1000 0xaa = Inr l1 \<and>
      start_conversation l1 0xaa 2000 0xbb = Inr l1 \<and>
      start_conversation l1 0xbb 3000 0xaa = Inr l1 \<and>
      get_conversation_id (conversation_registry l1) 0xaa 0xbb = Some cid \<and>
      get_conversation_id (conversation_registry l1) 0xbb 0xaa = Some cid \<and>
      map conversation_uid (filter (\<lambda>c. between c 0xaa 0xbb) (shared_conversations l1)) = [cid] \<and>
      (if conversation_exists (conversation_registry init_ledger) 0xaa 0xbb then l1 = init_ledger
       else shared_conversations l1 = shared_conversations init_ledger @
              [\<lparr>conversation_uid = cid, participant1 = 0xaa, participant2 = 0xbb,
                messages = [], last_message_timestamp_ms = 1000\<rparr>] \<and>
            emitted l1 = emitted init_ledger @ [ConversationCreated cid 0xaa 0xbb 1000]))"
proof -
  have ne: "(0xaa :: address) \<noteq> 0xbb" by simp
  show ?thesis
    using ne reachable_init
      start_conversation_find_or_create[OF reachable_init ne, of 1000 2000 3000]
    by blast
qed

text \<open>
  Claim C9. For every ledger, clock and address \<open>a\<close>, \<open>start_conversation\<close> sent by \<open>a\<close> for
  \<open>a\<close> aborts with \<open>ECannotMessageSelf\<close>; the aborted transaction creates nothing.
\<close>

theorem start_conversation_self_aborts:
  "start_conversation l a clock a = Inl ECannotMessageSelf"
  by (simp add: start_conversation_def)

theorem start_conversation_self_aborts_witness:
  "start_conversation init_ledger 0xaa 1000 0xaa = Inl ECannotMessageSelf \<and>
   abort_value ECannotMessageSelf = Some 4"
  using start_conversation_self_aborts[of init_ledger "0xaa" 1000] by simp

subsection \<open>Appending messages\<close>

lemma send_message_appends:
  assumes "send_message incr g c b h t s = Inr (g', c', ev)"
  shows "messages c' = messages c @ [sent_message (s, b, h, t)] \<and>
         last_message_timestamp_ms c' = t \<and>
         participant1 c' = participant1 c \<and> participant2 c' = participant2 c \<and>
         conversation_uid c' = conversation_uid c"
  using assms by (auto simp: send_message_def Let_def split: if_splits)

lemma send_messages_appends:
  "send_messages incr g c rs = Inr (g', c', evs) \<Longrightarrow>
   messages c' = messages c @ map sent_message rs \<and>
   last_message_timestamp_ms c' =
     (if rs = [] then last_message_timestamp_ms c else timestamp_ms (sent_message (last rs)))"
proof (induction rs arbitrary: g c g' c' evs)
  case Nil
  then show ?case by simp
next
  case (Cons r rs)
  obtain s b h t where r: "r = (s, b, h, t)" by (cases r) auto
  from Cons.prems r obtain g1 c1 ev1 evs1 where
    1: "send_message incr g c b h t s = Inr (g1, c1, ev1)" and
    2: "send_messages incr g1 c1 rs = Inr (g', c', evs1)"
    by (auto split: sum.splits)
  from send_message_appends[OF 1] Cons.IH[OF 2] r show ?case by auto
qed

text \<open>
  Claim C5. \<open>send_message\<close> aborts with \<open>ENotParticipant\<close> whenever the sender is neither
  participant, whatever the other arguments. It fails whenever the blob id or the
  content hash is empty: for a sender who is a participant with \<open>EInvalidBlobId\<close> when
  the blob id is empty and with \<open>EMessageEmpty\<close> when the blob id is not empty and the
  content hash is (the two codes of an empty reference), and for any other sender with
  \<open>ENotParticipant\<close>, the assertion that runs first. An abort returns no conversation: the
  transaction leaves the message sequence and the last timestamp as they were.
\<close>

theorem send_message_failures:
  "(\<not> is_participant c s \<longrightarrow> send_message incr g c b h t s = Inl ENotParticipant) \<and>
   (is_participant c s \<and> b = [] \<longrightarrow> send_message incr g c b h t s = Inl EInvalidBlobId) \<and>
   (is_participant c s \<and> b \<noteq> [] \<and> h = [] \<longrightarrow>
      send_message incr g c b h t s = Inl EMessageEmpty) \<and>
   (b = [] \<or> h = [] \<longrightarrow>
      send_message incr g c b h t s \<in> {Inl ENotParticipant, Inl EInvalidBlobId, Inl EMessageEmpty})"
  by (auto simp add: send_message_def is_participant_def)

theorem send_message_failures_witness:
  "\<not> is_participant demo_conversation 0xcc \<and>
   send_message (\<lambda>g. g) () demo_conversation ''blob1'' [1] 2000 0xcc = Inl ENotParticipant \<and>
   send_message (\<lambda>g. g) () demo_conversation [] [1] 2000 0xcc = Inl ENotParticipant \<and>
   is_participant demo_conversation 0xaa \<and>
   send_message (\<lambda>g. g) () demo_conversation [] [1] 2000 0xaa = Inl EInvalidBlobId \<and>
   send_message (\<lambda>g. g) () demo_conversation ''blob1'' [] 2000 0xaa = Inl EMessageEmpty"
proof -
  have 1: "\<not> is_participant demo_conversation 0xcc"
    by (simp add: is_participant_def demo_conversation_def)
  have 2: "is_participant demo_conversation 0xaa"
    by (simp add: is_participant_def demo_conversation_def)
  show ?thesis
    using 1 2
      send_message_failures[of demo_conversation "0xcc" "\<lambda>g. g" "()" "''blob1''" "[1]" 2000]
      send_message_failures[of demo_conversation "0xcc" "\<lambda>g. g" "()" "[]" "[1]" 2000]
      send_message_failures[of demo_conversation "0xaa" "\<lambda>g. g" "()" "[]" "[1]" 2000]
      send_message_failures[of demo_conversation "0xaa" "\<lambda>g. g" "()" "''blob1''" "[]" 2000]
    by simp
qed

text \<open>
  Claim C6, as the specification states it, in its last part: that the append returns
  the index of the new message. \<open>send_message\<close> is an entry function without a return
  value, and the \<open>MessageSent\<close> event it emits carries no index: the same request sent
  twice to the example conversation leaves, besides the conversation itself, the same
  registry and the same event, while the two messages stand at the indices 0 and 1.
\<close>

theorem send_message_no_index_counterexample:
  "send_message (\<lambda>g. g) () demo_conversation ''blob1'' [1] 2000 0xaa =
     Inr ((),
          demo_conversation\<lparr>messages := [sent_message (0xaa, ''blob1'', [1], 2000)],
                            last_message_timestamp_ms := 2000\<rparr>,
          MessageSent 7 0xaa 0xbb 2000) \<and>
   send_message (\<lambda>g. g) ()
       (demo_conversation\<lparr>messages := [sent_message (0xaa, ''blob1'', [1], 2000)],
                          last_message_timestamp_ms := 2000\<rparr>)
       ''blob1'' [1] 2000 0xaa =
     Inr ((),
          demo_conversation\<lparr>messages := [sent_message (0xaa, ''blob1'', [1], 2000),
                                          sent_message (0xaa, ''blob1'', [1], 2000)],
                            last_message_timestamp_ms := 2000\<rparr>,
          MessageSent 7 0xaa 0xbb 2000)"
  by (simp add: send_message_def demo_conversation_def)

text \<open>
  Claim C6, amended. If a run of \<open>send_message\<close> transactions on a conversation all
  succeed, the message sequence afterwards is the one before followed by the messages
  sent, in the order sent: the \<open>k\<close>-th message sent stands at the index that is the
  length of the sequence before plus \<open>k\<close>, and the earlier messages stay as they were. On
  a fresh conversation (no messages) the sequence has as many messages as were sent and
  the message at index \<open>i\<close> is the one the \<open>i\<close>-th transaction sent. After at least one
  transaction \<open>last_message_timestamp_ms\<close> is the timestamp of the last message.
  \<open>send_message\<close> returns nothing: the index of a new message is its position only.
\<close>

theorem send_messages_in_order:
  assumes "send_messages incr g c rs = Inr (g', c', evs)"
  shows "messages c' = messages c @ map sent_message rs \<and>
         (\<forall>k < length rs. messages c' ! (length (messages c) + k) = sent_message (rs ! k)) \<and>
         (\<forall>i < length (messages c). messages c' ! i = messages c ! i) \<and>
         (messages c = [] \<longrightarrow>
            length (messages c') = length rs \<and>
            (\<forall>i < length rs. messages c' ! i = sent_message (rs ! i))) \<and>
         (rs \<noteq> [] \<longrightarrow>
            last_message_timestamp_ms c' = timestamp_ms (last (messages c')) \<and>
            last (messages c') = sent_message (last rs))"
  using send_messages_appends[OF assms] by (auto simp: last_map nth_append)

theorem send_messages_in_order_witness:
  "\<exists>g' c' evs.
     send_messages (\<lambda>g. g) () demo_conversation
       [(0xaa, ''blob1'', [1], 2000), (0xbb, ''blob2'', [2], 3000)] = Inr (g', c', evs) \<and>
     messages demo_conversation = [] \<and>
     messages c' =
       [sent_message (0xaa, ''blob1'', [1], 2000), sent_message (0xbb, ''blob2'', [2], 3000)] \<and>
     length (messages c') = 2 \<and>
     last_message_timestamp_ms c' = 3000"
proof -
  let ?rs = "[(0xaa, ''blob1'', [1], 2000), (0xbb, ''blob2'', [2], 3000)] :: send_request list"
  obtain g' c' evs where
    run: "send_messages (\<lambda>g. g) () demo_conversation ?rs = Inr (g', c', evs)"
    by (simp add: send_message_def demo_conversation_def)
  have fresh: "messages demo_conversation = []" by (simp add: demo_conversation_def)
  show ?thesis
    using run fresh send_messages_in_order[OF run] by simp
qed

text \<open>
  Claim C10. For a sender who is a participant, \<open>send_message_with_media\<close> aborts with
  \<open>EInvalidBlobId\<close> whenever the media blob id is empty, also when the content blob id and
  the content hash are not; the abort leaves the conversation as it was. When all three
  are non-empty the transaction succeeds and appends one message, whose
  \<open>media_blob_id\<close> is \<open>Some\<close> of the media blob id given.
\<close>

theorem send_message_with_media_checks:
  assumes "is_participant c s"
  shows "(m = [] \<longrightarrow> send_message_with_media incr g c b h m t s = Inl EInvalidBlobId) \<and>
   (b \<noteq> [] \<and> h \<noteq> [] \<and> m \<noteq> [] \<longrightarrow>
      (\<exists>g' c' ev. send_message_with_media incr g c b h m t s = Inr (g', c', ev) \<and>
         c' = c\<lparr>messages := messages c @
                 [\<lparr>sender = s, encrypted_content_blob_id = b, content_hash = h,
                   timestamp_ms = t, is_read = False, media_blob_id = Some m\<rparr>],
               last_message_timestamp_ms := t\<rparr>))"
  using assms by (auto simp add: send_message_with_media_def is_participant_def Let_def)

theorem send_message_with_media_checks_witness:
  "is_participant demo_conversation 0xaa \<and>
   send_message_with_media (\<lambda>g. g) () demo_conversation ''blob1'' [1] [] 2000 0xaa
     = Inl EInvalidBlobId \<and>
   (\<exists>g' c' ev.
      send_message_with_media (\<lambda>g. g) () demo_conversation ''blob1'' [1] ''media1'' 2000 0xaa
        = Inr (g', c', ev) \<and>
      c' = demo_conversation\<lparr>messages := messages demo_conversation @
                 [\<lparr>sender = 0xaa, encrypted_content_blob_id = ''blob1'', content_hash = [1],
                   timestamp_ms = 2000, is_read = False, media_blob_id = Some ''media1''\<rparr>],
               last_message_timestamp_ms := 2000\<rparr>)"
proof -
  have p: "is_participant demo_conversation 0xaa"
    by (simp add: is_participant_def demo_conversation_def)
  show ?thesis
    using p
      send_message_with_media_checks[OF p, of "[]" "\<lambda>g. g" "()" "''blob1''" "[1]" 2000]
      send_message_with_media_checks[OF p, of "''media1''" "\<lambda>g. g" "()" "''blob1''" "[1]" 2000]
    by simp
qed

subsection \<open>Marking messages as read\<close>

lemma helper_nth:
  "end_index \<le> length msgs \<Longrightarrow>
   \<exists>msgs'. mark_messages_as_read_helper msgs reader index end_index = Inr msgs' \<and>
      length msgs' = length msgs \<and>
      (\<forall>j < length msgs. msgs' ! j = mark_one reader index end_index j (msgs ! j))"
proof (induction msgs reader index end_index rule: mark_messages_as_read_helper.induct)
  case (1 msgs reader index end_index)
  show ?case
  proof (cases "index \<ge> end_index")
    case True
    then show ?thesis by (auto simp add: mark_one_def)
  next
    case False
    then have lt: "index < length msgs" using "1.prems" by simp
    define msgs' where "msgs' = (if sender (msgs ! index) \<noteq> reader
                      then msgs[index := (msgs ! index)\<lparr>is_read := True\<rparr>] else msgs)"
    have len: "length msgs' = length msgs" by (simp add: msgs'_def)
    from "1.IH"[OF _ _ refl, of msgs'] False lt "1.prems" len
    obtain r where r: "mark_messages_as_read_helper msgs' reader (index + 1) end_index = Inr r"
      "length r = length msgs'"
      "\<forall>j < length msgs'. r ! j = mark_one reader (index + 1) end_index j (msgs' ! j)"
      by (auto simp: msgs'_def)
    have unfold: "mark_messages_as_read_helper msgs reader index end_index = Inr r"
      using False lt r(1)
      by (subst mark_messages_as_read_helper.simps) (simp add: msgs'_def Let_def)
    have "r ! j = mark_one reader index end_index j (msgs ! j)" if "j < length msgs" for j
    proof -
      have "r ! j = mark_one reader (index + 1) end_index j (msgs' ! j)"
        using r(3) that len by simp
      also have "\<dots> = mark_one reader index end_index j (msgs ! j)"
        using that lt False by (cases "j = index") (auto simp: mark_one_def msgs'_def)
      finally show ?thesis .
    qed
    then show ?thesis using unfold r(2) len by simp
  qed
qed

lemma mark_read_nth:
  assumes "is_participant c reader"
  shows "\<exists>msgs'. mark_messages_as_read c up reader = Inr (c\<lparr>messages := msgs'\<rparr>) \<and>
      length msgs' = length (messages c) \<and>
      (\<forall>j < length (messages c).
         msgs' ! j = (if j \<le> unat up \<and> sender (messages c ! j) \<noteq> reader
                      then (messages c ! j)\<lparr>is_read := True\<rparr> else messages c ! j))"
proof -
  define e where
    "e = (if unat up \<ge> length (messages c) then length (messages c) else unat up + 1)"
  have le: "e \<le> length (messages c)" by (simp add: e_def)
  from helper_nth[OF le, of reader 0]
  obtain r where r: "mark_messages_as_read_helper (messages c) reader 0 e = Inr r"
    "length r = length (messages c)"
    "\<forall>j < length (messages c). r ! j = mark_one reader 0 e j (messages c ! j)"
    by blast
  have run: "mark_messages_as_read c up reader = Inr (c\<lparr>messages := r\<rparr>)"
    using assms r(1)
    by (auto simp add: mark_messages_as_read_def is_participant_def e_def Let_def)
  have "r ! j = (if j \<le> unat up \<and> sender (messages c ! j) \<noteq> reader
                      then (messages c ! j)\<lparr>is_read := True\<rparr> else messages c ! j)"
    if "j < length (messages c)" for j
    using r(3) that by (auto simp: mark_one_def e_def split: if_splits)
  then show ?thesis using run r(2) by blast
qed

text \<open>
  Claim C4. For a reader who is a participant and every \<open>up_to_index\<close>,
  \<open>mark_messages_as_read\<close> succeeds, also when \<open>up_to_index\<close> is past the end of the
  sequence. The sequence keeps its length; the message at an index \<open>j \<le> up_to_index\<close>
  whose sender is not the reader is the old one with \<open>is_read = true\<close> and every other
  message is the old one, unchanged; nothing else of the conversation changes; and a
  second call with the same or a smaller \<open>up_to_index\<close> returns the conversation as the
  first call left it.
\<close>

theorem mark_messages_as_read_exact:
  assumes "is_participant c reader"
  shows "\<exists>c'. mark_messages_as_read c up reader = Inr c' \<and>
      length (messages c') = length (messages c) \<and>
      (\<forall>j < length (messages c).
         messages c' ! j = (if j \<le> unat up \<and> sender (messages c ! j) \<noteq> reader
                      then (messages c ! j)\<lparr>is_read := True\<rparr> else messages c ! j)) \<and>
      c' = c\<lparr>messages := messages c'\<rparr> \<and>
      (\<forall>up'. up' \<le> up \<longrightarrow> mark_messages_as_read c' up' reader = Inr c')"
proof -
  from mark_read_nth[OF assms, of up]
  obtain r where r: "mark_messages_as_read c up reader = Inr (c\<lparr>messages := r\<rparr>)"
    "length r = length (messages c)"
    "\<forall>j < length (messages c).
         r ! j = (if j \<le> unat up \<and> sender (messages c ! j) \<noteq> reader
                      then (messages c ! j)\<lparr>is_read := True\<rparr> else messages c ! j)"
    by blast
  define c' where "c' = c\<lparr>messages := r\<rparr>"
  have p': "is_participant c' reader" using assms by (simp add: c'_def is_participant_def)
  have idem: "mark_messages_as_read c' up' reader = Inr c'" if "up' \<le> up" for up'
  proof -
    from mark_read_nth[OF p', of up']
    obtain r' where r': "mark_messages_as_read c' up' reader = Inr (c'\<lparr>messages := r'\<rparr>)"
      "length r' = length (messages c')"
      "\<forall>j < length (messages c').
         r' ! j = (if j \<le> unat up' \<and> sender (messages c' ! j) \<noteq> reader
                      then (messages c' ! j)\<lparr>is_read := True\<rparr> else messages c' ! j)"
      by blast
    have le: "unat up' \<le> unat up" using that by (simp add: word_le_nat_alt)
    have "r' = r"
    proof (rule nth_equalityI)
      show "length r' = length r" using r'(2) by (simp add: c'_def)
    next
      fix j assume "j < length r'"
      then have j: "j < length (messages c)" using r'(2) r(2) by (simp add: c'_def)
      then have "r' ! j = (if j \<le> unat up' \<and> sender (r ! j) \<noteq> reader
                      then (r ! j)\<lparr>is_read := True\<rparr> else r ! j)"
        using r'(3) r(2) by (simp add: c'_def)
      also have "\<dots> = r ! j"
        using r(3) j le by auto
      finally show "r' ! j = r ! j" .
    qed
    then show ?thesis using r'(1) by (simp add: c'_def)
  qed
  show ?thesis
    using r idem by (intro exI[of _ c']) (simp add: c'_def)
qed

theorem mark_messages_as_read_exact_witness:
  "is_participant demo_thread 0xaa \<and>
   (\<exists>c'. mark_messages_as_read demo_thread 9 0xaa = Inr c' \<and>
      length (messages c') = 4 \<and>
      map is_read (messages c') = [False, True, False, True] \<and>
      c' = demo_thread\<lparr>messages := messages c'\<rparr> \<and>
      mark_messages_as_read c' 9 0xaa = Inr c' \<and>
      mark_messages_as_read c' 2 0xaa = Inr c')"
proof -
  have p: "is_participant demo_thread 0xaa"
    by (simp add: is_participant_def demo_thread_def demo_conversation_def)
  have len: "length (messages demo_thread) = 4"
    by (simp add: demo_thread_def)
  from mark_messages_as_read_exact[OF p, of 9]
  obtain c' where c': "mark_messages_as_read demo_thread 9 0xaa = Inr c'"
    "length (messages c') = length (messages demo_thread)"
    "\<forall>j < length (messages demo_thread).
         messages c' ! j = (if j \<le> unat (9 :: u64) \<and> sender (messages demo_thread ! j) \<noteq> 0xaa
                      then (messages demo_thread ! j)\<lparr>is_read := True\<rparr>
                      else messages demo_thread ! j)"
    "c' = demo_thread\<lparr>messages := messages c'\<rparr>"
    "\<forall>up'. up' \<le> 9 \<longrightarrow> mark_messages_as_read c' up' 0xaa = Inr c'"
    by blast
  have nth: "is_read (messages c' ! 0) = False" "is_read (messages c' ! 1) = True"
    "is_read (messages c' ! 2) = False" "is_read (messages c' ! 3) = True"
    using c'(3) by (simp_all add: demo_thread_def)
  have "map is_read (messages c') = [False, True, False, True]"
    using c'(2) len nth by (intro nth_equalityI) (auto simp: less_Suc_eq numeral_eq_Suc)
  moreover have "mark_messages_as_read c' 9 0xaa = Inr c'" "mark_messages_as_read c' 2 0xaa = Inr c'"
    using c'(5) by simp_all
  ultimately show ?thesis using p c'(1,2,4) len by auto
qed

section \<open>Properties of the encryption pipeline\<close>

declare utf8_decode.simps [simp del]

subsection \<open>The text codecs\<close>

































lemma encode_hi: "TextEncoder_encode (js ''hi'') = [104, 105]"
  by (simp add: TextEncoder_encode_def js_def utf8_bytes_def is_lead_def is_trail_def)

lemma decode_hi: "TextDecoder_decode [104, 105] = js ''hi''"
  by (simp add: TextDecoder_decode_def js_def utf8_decode.simps strip_bom_def utf16_units_def)

lemma encode_bye: "TextEncoder_encode (js ''bye'') = [98, 121, 101]"
  by (simp add: TextEncoder_encode_def js_def utf8_bytes_def is_lead_def is_trail_def)

subsection \<open>The content digest\<close>

lemma compare_hashes_drop:
  "length a = length e \<Longrightarrow> compare_hashes a e i = (drop i a = drop i e)"
proof (induction a e i rule: compare_hashes.induct)
  case (1 a e i)
  show ?case
  proof (cases "i < length a")
    case True
    then have da: "drop i a = a ! i # drop (Suc i) a" and de: "drop i e = e ! i # drop (Suc i) e"
      using "1.prems" by (simp_all add: Cons_nth_drop_Suc)
    show ?thesis
    proof (cases "a ! i = e ! i")
      case eq: True
      have "compare_hashes a e i = compare_hashes a e (i + 1)"
        using True eq by (subst compare_hashes.simps) simp
      also have "\<dots> = (drop (i + 1) a = drop (i + 1) e)"
        using "1.IH"[OF True _ "1.prems"] eq by simp
      finally show ?thesis using da de eq by simp
    next
      case False
      then show ?thesis using True da de by (subst compare_hashes.simps) simp
    qed
  next
    case False
    then show ?thesis using "1.prems" by (subst compare_hashes.simps) simp
  qed
qed

lemma verify_iff_digest:
  "verifyMessageHash env messageContent expectedHash =
   (subtle_digest env (TextEncoder_encode messageContent) = Inr expectedHash)"
proof (cases "subtle_digest env (TextEncoder_encode messageContent)")
  case (Inl e)
  then show ?thesis by (simp add: verifyMessageHash_def)
next
  case (Inr actual)
  show ?thesis
  proof (cases "length actual = length expectedHash")
    case True
    then show ?thesis using Inr compare_hashes_drop[OF True, of 0]
      by (simp add: verifyMessageHash_def)
  next
    case False
    then show ?thesis using Inr by (auto simp add: verifyMessageHash_def)
  qed
qed

text \<open>
  Claim C8. For every message and every expected hash, \<open>verifyMessageHash\<close> returns true
  exactly when the digest recomputed from the message has the length of the expected
  hash and the same byte at every index; a digest that cannot be computed, a difference
  in length or a difference in any byte gives false. In particular a proper prefix of
  the digest, or a hash of which the digest is a proper prefix, is never accepted.
\<close>

theorem verifyMessageHash_exact:
  "verifyMessageHash env messageContent expectedHash =
     (\<exists>actualHash. subtle_digest env (TextEncoder_encode messageContent) = Inr actualHash \<and>
        length actualHash = length expectedHash \<and>
        (\<forall>i < length actualHash. actualHash ! i = expectedHash ! i))"
  by (auto simp: verify_iff_digest list_eq_iff_nth_eq)

theorem verifyMessageHash_exact_witness:
  "verifyMessageHash demo_platform (js ''hi'') (replicate 32 209) \<and>
   \<not> verifyMessageHash demo_platform (js ''hi'') (replicate 31 209) \<and>
   \<not> verifyMessageHash demo_platform (js ''hi'') (replicate 33 209) \<and>
   \<not> verifyMessageHash demo_platform (js ''hi'') (replicate 31 209 @ [208])"
proof -
  have d: "subtle_digest demo_platform (TextEncoder_encode (js ''hi'')) = Inr (replicate 32 209)"
    by (simp add: demo_platform_def demo_digest_def encode_hi)
  have 1: "verifyMessageHash demo_platform (js ''hi'') (replicate 32 209)"
    using verifyMessageHash_exact[of demo_platform "js ''hi''" "replicate 32 209"] d by simp
  have 2: "\<not> verifyMessageHash demo_platform (js ''hi'') (replicate 31 209)"
    using verifyMessageHash_exact[of demo_platform "js ''hi''" "replicate 31 209"] d by simp
  have 3: "\<not> verifyMessageHash demo_platform (js ''hi'') (replicate 33 209)"
    using verifyMessageHash_exact[of demo_platform "js ''hi''" "replicate 33 209"] d by simp
  have "(replicate 32 209 :: u8 list) ! 31 \<noteq> (replicate 31 209 @ [208]) ! 31"
    by (simp add: nth_append)
  then have 4: "\<not> verifyMessageHash demo_platform (js ''hi'') (replicate 31 209 @ [208])"
    using verifyMessageHash_exact[of demo_platform "js ''hi''" "replicate 31 209 @ [208]"] d
    by auto
  show ?thesis using 1 2 3 4 by simp
qed

subsection \<open>The conversation identity\<close>

lemma sort_two: "sort [a, b :: 'a :: linorder] = sort [b, a]"
  by (cases "a \<le> b") (auto simp: insort_key.simps)


text \<open>
  Claim C7. \<open>createConversationIdentity\<close> is a function of its two arguments, and for
  every conversation id and all participants \<open>a\<close> and \<open>b\<close> the identity derived from
  \<open>[a, b]\<close> is, unit for unit, the identity derived from \<open>[b, a]\<close>.
\<close>

theorem createConversationIdentity_order:
  "createConversationIdentity conversationId [a, b] =
   createConversationIdentity conversationId [b, a]"
  unfolding createConversationIdentity_def by (simp only: sort_two[of a b])

theorem createConversationIdentity_order_witness:
  "createConversationIdentity (js ''c1'') [js ''0xaa'', js ''0xbb''] =
   createConversationIdentity (js ''c1'') [js ''0xbb'', js ''0xaa'']"
  by (rule createConversationIdentity_order)

subsection \<open>Decryption and the digest\<close>

lemma decrypt_demo_store:
  "decryptMessage demo_platform demo_store (js ''b1'') demo_seal (js ''c1'')
     [js ''0xaa'', js ''0xbb''] None None = Inr (js ''hi'')"
  by (simp add: decryptMessage_def demo_platform_def demo_store_def demo_seal_def Let_def
      encode_hi decode_hi)

lemma verify_demo_bad:
  "\<not> verifyMessageHash demo_platform (js ''hi'') (demo_digest (TextEncoder_encode (js ''bye'')))"
  by (simp add: verify_iff_digest demo_platform_def demo_digest_def encode_hi encode_bye)

text \<open>
  Claim C1, as the specification states it, at the blob \<open>b1\<close> of the example store, which
  decrypts to \<open>hi\<close>, and the digest of another message as the expected digest:
  \<open>decryptMessage\<close> takes no expected digest and returns \<open>hi\<close>, although \<open>hi\<close> fails
  \<open>verifyMessageHash\<close> against that digest.
\<close>

theorem decryptMessage_unverified_counterexample:
  "decryptMessage demo_platform demo_store (js ''b1'') demo_seal (js ''c1'')
     [js ''0xaa'', js ''0xbb''] None None = Inr (js ''hi'') \<and>
   \<not> verifyMessageHash demo_platform (js ''hi'') (demo_digest (TextEncoder_encode (js ''bye'')))"
  using decrypt_demo_store verify_demo_bad by simp

text \<open>
  Claim C1, amended. \<open>decryptMessage\<close> performs no digest verification. It takes no
  expected digest, and its result is the same whatever \<open>crypto.subtle.digest\<close> would
  compute; whenever the download answers \<open>ok\<close> and the decryption backend returns data,
  it returns the decoded text, with no condition on \<open>verifyMessageHash\<close>, so also a text
  that fails the verification against the expected digest. It has no integrity
  failure; the digest is checked only by a separate call of \<open>verifyMessageHash\<close>.
\<close>

theorem decryptMessage_no_digest_check:
  "decryptMessage (env\<lparr>subtle_digest := digest\<rparr>) w blobId sealClient cid parts sessionKey txBytes =
     decryptMessage env w blobId sealClient cid parts sessionKey txBytes \<and>
   (fetch env w (getBlobUrl env blobId) = Inr r \<and> ok r \<and>
    seal_decrypt sealClient (body r)
      (case sessionKey of
         None \<Rightarrow> createSessionKey env (createConversationIdentity cid parts) sealClient
       | Some k \<Rightarrow> k)
      (case txBytes of
         None \<Rightarrow> createDecryptTransaction (createConversationIdentity cid parts)
       | Some t \<Rightarrow> t) = Inr data \<longrightarrow>
    decryptMessage env w blobId sealClient cid parts sessionKey txBytes =
      Inr (TextDecoder_decode data))"
  by (auto simp add: decryptMessage_def createSessionKey_def Let_def
      split: sum.splits option.splits)

theorem decryptMessage_no_digest_check_witness:
  "decryptMessage (demo_platform\<lparr>subtle_digest := (\<lambda>bytes. Inl JsThrown)\<rparr>) demo_store
       (js ''b1'') demo_seal (js ''c1'') [js ''0xaa'', js ''0xbb''] None None =
     decryptMessage demo_platform demo_store (js ''b1'') demo_seal (js ''c1'')
       [js ''0xaa'', js ''0xbb''] None None \<and>
   fetch demo_platform demo_store (getBlobUrl demo_platform (js ''b1'')) =
     Inr \<lparr>ok = True, statusText = js ''OK'', body = [105, 104]\<rparr> \<and>
   seal_decrypt demo_seal [105, 104]
     (createSessionKey demo_platform
        (createConversationIdentity (js ''c1'') [js ''0xaa'', js ''0xbb'']) demo_seal)
     (createDecryptTransaction (createConversationIdentity (js ''c1'') [js ''0xaa'', js ''0xbb'']))
     = Inr [104, 105] \<and>
   decryptMessage demo_platform demo_store (js ''b1'') demo_seal (js ''c1'')
       [js ''0xaa'', js ''0xbb''] None None = Inr (TextDecoder_decode [104, 105]) \<and>
   TextDecoder_decode [104, 105] = js ''hi''"
proof -
  let ?r = "\<lparr>ok = True, statusText = js ''OK'', body = [105, 104 :: u8]\<rparr>"
  let ?ident = "createConversationIdentity (js ''c1'') [js ''0xaa'', js ''0xbb'']"
  have f: "fetch demo_platform demo_store (getBlobUrl demo_platform (js ''b1'')) = Inr ?r"
    by (simp add: demo_platform_def demo_store_def encode_hi)
  have okr: "ok ?r" and bodyr: "body ?r = [105, 104]" by simp_all
  have d: "seal_decrypt demo_seal [105, 104]
     (createSessionKey demo_platform ?ident demo_seal) (createDecryptTransaction ?ident)
     = Inr [104, 105]"
    by (simp add: demo_seal_def)
  have d': "seal_decrypt demo_seal (body ?r)
     (case None of None \<Rightarrow> createSessionKey demo_platform ?ident demo_seal | Some k \<Rightarrow> k)
     (case None of None \<Rightarrow> createDecryptTransaction ?ident | Some t \<Rightarrow> t)
     = Inr [104, 105]"
    using d by (simp only: bodyr option.case)
  note t = decryptMessage_no_digest_check[where env = demo_platform
      and digest = "\<lambda>bytes. Inl JsThrown" and w = demo_store and blobId = "js ''b1''"
      and sealClient = demo_seal and cid = "js ''c1''" and parts = "[js ''0xaa'', js ''0xbb'']"
      and sessionKey = None and txBytes = None and r = ?r and data = "[104, 105]"]
  have same: "decryptMessage (demo_platform\<lparr>subtle_digest := (\<lambda>bytes. Inl JsThrown)\<rparr>) demo_store
       (js ''b1'') demo_seal (js ''c1'') [js ''0xaa'', js ''0xbb''] None None =
     decryptMessage demo_platform demo_store (js ''b1'') demo_seal (js ''c1'')
       [js ''0xaa'', js ''0xbb''] None None"
    using t by blast
  have res: "decryptMessage demo_platform demo_store (js ''b1'') demo_seal (js ''c1'')
       [js ''0xaa'', js ''0xbb''] None None = Inr (TextDecoder_decode [104, 105])"
    using t f okr d' by blast
  show ?thesis using same f d res decode_hi by blast
qed

subsection \<open>The round trip\<close>















end
